theory Spec2Isabelle
  imports Main "HOL-Library.Char_ord" "HOL-Library.List_Lexorder"
    "HOL-Library.Product_Lexorder" "HOL-Library.Multiset"
begin

section \<open>Python strings\<close>

text \<open>
  The theory follows \<open>kicost/eda_tools/eda_tools.py\<close> under Python 3: strings are
  sequences of code points, dictionaries and \<open>Counter\<close> keep the order of insertion,
  \<open>list.sort\<close> and \<open>sorted\<close> are stable.

  A Python \<open>str\<close> is modelled as a \<open>string\<close> whose characters are the code points
  below 256.  \<open>isspace\<close> is the whitespace class shared by \<open>str.strip()\<close> and the
  regular-expression escape \<open>\s\<close> on that range; \<open>isdigit\<close> is \<open>[0-9]\<close> (and \<open>\d\<close>
  on that range); \<open>isalpha\<close> is \<open>[a-z]\<close> under \<open>re.IGNORECASE\<close>.
\<close>

definition isspace :: "char \<Rightarrow> bool" where
  "isspace c = (let n = (of_char c :: nat) in
     (9 \<le> n \<and> n \<le> 13) \<or> (28 \<le> n \<and> n \<le> 32) \<or> n = 133 \<or> n = 160)"

definition isdigit :: "char \<Rightarrow> bool" where
  "isdigit c = (let n = (of_char c :: nat) in 48 \<le> n \<and> n \<le> 57)"

definition isalpha :: "char \<Rightarrow> bool" where
  "isalpha c = (let n = (of_char c :: nat) in (65 \<le> n \<and> n \<le> 90) \<or> (97 \<le> n \<and> n \<le> 122))"

definition backslash :: char where
  "backslash = CHR 0x5C"

definition str_strip :: "string \<Rightarrow> string" where
  "str_strip s = rev (dropWhile isspace (rev (dropWhile isspace s)))"

definition str_lower_char :: "char \<Rightarrow> char" where
  "str_lower_char c = (let n = (of_char c :: nat) in
     if (65 \<le> n \<and> n \<le> 90) \<or> (192 \<le> n \<and> n \<le> 222 \<and> n \<noteq> 215) then char_of (n + 32) else c)"

definition str_lower :: "string \<Rightarrow> string" where
  "str_lower s = map str_lower_char s"

fun str_join :: "string \<Rightarrow> string list \<Rightarrow> string" where
  "str_join sep [] = []"
| "str_join sep [x] = x"
| "str_join sep (x # y # ys) = x @ sep @ str_join sep (y # ys)"

section \<open>The separators\<close>

text \<open>
  \<open>QTY_SEPRTR = (?<!\\)\s*[:]\s*\<close> and \<open>PART_SEPRTR = (?<!\\)\s*[;,]\s*\<close> differ in the
  separator class only.  \<open>sep_match sep s\<close> is the match of \<open>\s*[sep]\s*\<close> at the head
  of \<open>s\<close>: both \<open>\s*\<close> are greedy and the class holds no whitespace, so the match is
  unique; the result is the text after it.
\<close>

definition sep_match :: "(char \<Rightarrow> bool) \<Rightarrow> string \<Rightarrow> string option" where
  "sep_match sep s = (case dropWhile isspace s of
       [] \<Rightarrow> None
     | d # r \<Rightarrow> if sep d then Some (dropWhile isspace r) else None)"

lemma sep_match_shorter: "sep_match sep s = Some r \<Longrightarrow> length r < length s"
proof -
  assume h: "sep_match sep s = Some r"
  then obtain d t where dt: "dropWhile isspace s = d # t" and r: "r = dropWhile isspace t"
    by (auto simp: sep_match_def split: list.splits if_splits)
  have "length r \<le> length t" unfolding r by (rule length_dropWhile_le)
  moreover have "length (d # t) \<le> length s" unfolding dt[symmetric] by (rule length_dropWhile_le)
  ultimately show ?thesis by simp
qed

text \<open>
  \<open>re.split(SEPRTR, s)\<close>: the scan goes left to right; \<open>esc\<close> says that the character
  before the current position is a backslash (the negative lookbehind), \<open>seg\<close> is the
  segment collected since the last match.  After a match the previous character is a
  separator or whitespace, never a backslash.
\<close>

function re_split_sep :: "(char \<Rightarrow> bool) \<Rightarrow> bool \<Rightarrow> string \<Rightarrow> string \<Rightarrow> string list" where
  "re_split_sep sep esc seg [] = [seg]"
| "re_split_sep sep esc seg (c # cs) =
     (case (if esc then None else sep_match sep (c # cs)) of
        Some rest \<Rightarrow> seg # re_split_sep sep False [] rest
      | None \<Rightarrow> re_split_sep sep (c = backslash) (seg @ [c]) cs)"
  by pat_completeness auto
termination
  by (relation "measure (\<lambda>(sep, esc, seg, s). length s)")
     (auto split: if_splits dest: sep_match_shorter)

definition is_qty_sep :: "char \<Rightarrow> bool" where
  "is_qty_sep c = (c = CHR '':'')"

definition is_part_sep :: "char \<Rightarrow> bool" where
  "is_part_sep c = (c = CHR '';'' \<or> c = CHR '','')"

definition split_QTY_SEPRTR :: "string \<Rightarrow> string list" where
  "split_QTY_SEPRTR s = re_split_sep is_qty_sep False [] s"

definition split_PART_SEPRTR :: "string \<Rightarrow> string list" where
  "split_PART_SEPRTR s = re_split_sep is_part_sep False [] s"

text \<open>
  \<open>re.sub(ESC_FIND, r'\1', s)\<close> with \<open>ESC_FIND = \\\s*([;,:])\s*\<close>: a backslash, optional
  whitespace, a separator and optional whitespace are replaced by the separator alone.
\<close>

definition esc_match :: "string \<Rightarrow> (char \<times> string) option" where
  "esc_match s = (case s of
       [] \<Rightarrow> None
     | c # cs \<Rightarrow> if c \<noteq> backslash then None else
         (case dropWhile isspace cs of
            [] \<Rightarrow> None
          | d # r \<Rightarrow> if is_part_sep d \<or> is_qty_sep d then Some (d, dropWhile isspace r) else None))"

lemma esc_match_shorter: "esc_match s = Some (d, r) \<Longrightarrow> length r < length s"
proof -
  assume h: "esc_match s = Some (d, r)"
  then obtain c cs t where s: "s = c # cs" and dt: "dropWhile isspace cs = d # t"
      and r: "r = dropWhile isspace t"
    by (auto simp: esc_match_def split: list.splits if_splits)
  have "length r \<le> length t" unfolding r by (rule length_dropWhile_le)
  moreover have "length (d # t) \<le> length cs" unfolding dt[symmetric] by (rule length_dropWhile_le)
  ultimately show ?thesis using s by simp
qed

function sub_ESC_FIND :: "string \<Rightarrow> string" where
  "sub_ESC_FIND [] = []"
| "sub_ESC_FIND (c # cs) =
     (case esc_match (c # cs) of
        Some (d, rest) \<Rightarrow> d # sub_ESC_FIND rest
      | None \<Rightarrow> c # sub_ESC_FIND cs)"
  by pat_completeness auto
termination
  by (relation "measure length") (auto dest: esc_match_shorter)

section \<open>The quantity/code decoder\<close>

text \<open>
  \<open>num_format = ^\s*[\-\+]?\s*[0-9]*\s*[\.\/]*\s*?[0-9]*\s*$\<close>, used with \<open>re.match\<close>.
  Every group of the pattern is optional and neighbouring groups have disjoint
  character classes, so the pattern matches exactly when consuming each group
  greedily, in order, uses up the whole string.
\<close>

definition num_format :: "string \<Rightarrow> bool" where
  "num_format s =
    (let s1 = dropWhile isspace s;
         s2 = (case s1 of [] \<Rightarrow> [] | c # r \<Rightarrow> if c = CHR ''-'' \<or> c = CHR ''+'' then r else s1);
         s3 = dropWhile isspace s2;
         s4 = dropWhile isdigit s3;
         s5 = dropWhile isspace s4;
         s6 = dropWhile (\<lambda>c. c = CHR ''.'' \<or> c = CHR ''/'') s5;
         s7 = dropWhile isspace s6;
         s8 = dropWhile isdigit s7;
         s9 = dropWhile isspace s8
     in s9 = [])"

text \<open>\<open>len(re.sub('[\.\/]', '', s))\<close>\<close>

definition len_no_marks :: "string \<Rightarrow> nat" where
  "len_no_marks s = length (filter (\<lambda>c. \<not> (c = CHR ''.'' \<or> c = CHR ''/'')) s)"

definition manf_code_qtypart :: "string \<Rightarrow> string \<times> string" where
  "manf_code_qtypart subpart =
    (let strings = split_QTY_SEPRTR (sub_ESC_FIND subpart) in
     case strings of
       [s0, s1] \<Rightarrow>
         (let string0_test = num_format s0;
              string1_test = num_format s1;
              (qty, part) =
                (if string0_test \<and> \<not> string1_test then (str_strip s0, str_strip s1)
                 else if \<not> string0_test \<and> string1_test then (str_strip s1, str_strip s0)
                 else if string0_test \<and> string1_test then
                   (if len_no_marks s0 < len_no_marks s1 then (str_strip s0, str_strip s1)
                    else (str_strip s1, str_strip s0))
                 else (''1'', str_strip s0 @ str_strip s1))
          in (if qty = [] then ''1'' else qty, part))
     | _ \<Rightarrow> (''1'', concat strings))"

section \<open>Properties of the decoder\<close>

text \<open>
  Claim C6.  The decoder returns, as the pair (quantity, code):
  \<open>("7", "ADUM3150BRSZ-RL7")\<close> for \<open>"7:ADUM3150BRSZ-RL7"\<close>,
  \<open>("1", "ADUM3150BRSZ-RL7")\<close> for \<open>"ADUM3150BRSZ-RL7"\<close>,
  \<open>("7", "ADUM3150BRSZ-RL7")\<close> for \<open>"ADUM3150BRSZ-RL7 :   7"\<close> and
  \<open>("4.5", "ADUM3150BRSZ-RL7")\<close> for \<open>" 4.5 : ADUM3150BRSZ-RL7"\<close>.
\<close>

theorem manf_code_qtypart_literal_cases:
  "manf_code_qtypart ''7:ADUM3150BRSZ-RL7'' = (''7'', ''ADUM3150BRSZ-RL7'') \<and>
   manf_code_qtypart ''ADUM3150BRSZ-RL7'' = (''1'', ''ADUM3150BRSZ-RL7'') \<and>
   manf_code_qtypart ''ADUM3150BRSZ-RL7 :   7'' = (''7'', ''ADUM3150BRSZ-RL7'') \<and>
   manf_code_qtypart '' 4.5 : ADUM3150BRSZ-RL7'' = (''4.5'', ''ADUM3150BRSZ-RL7'')"
  by code_simp

text \<open>
  Claim C7, as stated: when the string splits on the quantity separator into exactly two
  segments that both match the numeric pattern, the quantity returned is the segment
  that is strictly shorter once \<open>.\<close> and \<open>/\<close> are deleted.  The input \<open>":12"\<close> refutes
  it: the segments are \<open>""\<close> and \<open>"12"\<close>, both match the pattern (every part of it is
  optional), the first is strictly shorter, and the quantity returned is \<open>"1"\<close>, not
  \<open>""\<close>: line 600 replaces an empty quantity by \<open>"1"\<close>.
\<close>

theorem manf_code_qtypart_empty_quantity_counterexample:
  "split_QTY_SEPRTR (sub_ESC_FIND '':12'') = ['''', ''12''] \<and>
   num_format '''' \<and> num_format ''12'' \<and>
   len_no_marks '''' < len_no_marks ''12'' \<and>
   manf_code_qtypart '':12'' = (''1'', ''12'') \<and>
   fst (manf_code_qtypart '':12'') \<noteq> str_strip ''''"
  by code_simp

text \<open>
  Claim C7, amended: when the string (after unescaping) splits on the quantity separator
  into exactly two segments, both matching the numeric pattern, and one of them is
  strictly shorter once \<open>.\<close> and \<open>/\<close> are deleted, then the code returned is the other
  segment, stripped, and the quantity returned is the shorter segment, stripped, or
  \<open>"1"\<close> when the stripped shorter segment is empty.
\<close>

theorem manf_code_qtypart_both_numeric:
  assumes "split_QTY_SEPRTR (sub_ESC_FIND subpart) = [s0, s1]"
    and "num_format s0" and "num_format s1"
    and "len_no_marks s0 \<noteq> len_no_marks s1"
  shows "manf_code_qtypart subpart =
     (let shorter = (if len_no_marks s0 < len_no_marks s1 then s0 else s1);
          longer = (if len_no_marks s0 < len_no_marks s1 then s1 else s0)
      in (if str_strip shorter = [] then ''1'' else str_strip shorter, str_strip longer))"
  using assms by (simp add: manf_code_qtypart_def Let_def)

theorem manf_code_qtypart_both_numeric_witness:
  "split_QTY_SEPRTR (sub_ESC_FIND ''74:1.5 '') = [''74'', ''1.5 ''] \<and>
   num_format ''74'' \<and> num_format ''1.5 '' \<and>
   len_no_marks ''74'' \<noteq> len_no_marks ''1.5 '' \<and>
   manf_code_qtypart ''74:1.5 '' = (''74'', ''1.5'')"
proof -
  have h1: "split_QTY_SEPRTR (sub_ESC_FIND ''74:1.5 '') = [''74'', ''1.5 '']" by code_simp
  have h2: "num_format ''74''" by code_simp
  have h3: "num_format ''1.5 ''" by code_simp
  have h4: "len_no_marks ''74'' \<noteq> len_no_marks ''1.5 ''" by code_simp
  have r: "(let shorter = (if len_no_marks ''74'' < len_no_marks ''1.5 '' then ''74'' else ''1.5 '');
          longer = (if len_no_marks ''74'' < len_no_marks ''1.5 '' then ''1.5 '' else ''74'')
      in (if str_strip shorter = [] then ''1'' else str_strip shorter, str_strip longer))
     = (''74'', ''1.5'')" by code_simp
  show ?thesis
    using manf_code_qtypart_both_numeric [OF h1 h2 h3 h4] h1 h2 h3 h4 unfolding r by simp
qed

section \<open>Errors, numbers and dictionaries\<close>

text \<open>
  Every way the functions below stop without returning is a value: \<open>exit(msg)\<close> is
  \<open>SystemExit msg\<close>; the other constructors are the Python exceptions that no handler
  of the source catches.
\<close>

datatype py_error = SystemExit string | AttributeError | UnboundLocalError

text \<open>\<open>str(n)\<close> and \<open>int(s)\<close> on decimal digits.\<close>

definition digit_char :: "nat \<Rightarrow> char" where
  "digit_char d = char_of (48 + d)"

fun str_of_nat :: "nat \<Rightarrow> string" where
  "str_of_nat n = (if n < 10 then [digit_char n] else str_of_nat (n div 10) @ [digit_char (n mod 10)])"

declare str_of_nat.simps [simp del]

definition nat_of_digits :: "string \<Rightarrow> nat" where
  "nat_of_digits ds = foldl (\<lambda>a c. 10 * a + (of_char c - 48)) 0 ds"

text \<open>
  A Python \<open>dict\<close> is an association list in insertion order with distinct keys.
  \<open>dict_set d k v\<close> is \<open>d[k] = v\<close>: an existing key keeps its place.  \<open>dict_get d k\<close> is
  \<open>d.get(k)\<close> for a dictionary whose values are strings or \<open>None\<close>: the result is
  \<open>None\<close> for a missing key and for a key bound to \<open>None\<close>.
\<close>

fun dict_set :: "('k \<times> 'v) list \<Rightarrow> 'k \<Rightarrow> 'v \<Rightarrow> ('k \<times> 'v) list" where
  "dict_set [] k v = [(k, v)]"
| "dict_set ((k', v') # d) k v = (if k' = k then (k, v) # d else (k', v') # dict_set d k v)"

type_synonym pyfields = "(string \<times> string option) list"

type_synonym pycomponents = "(string \<times> pyfields) list"

definition dict_get :: "pyfields \<Rightarrow> string \<Rightarrow> string option" where
  "dict_get d k = (case map_of d k of None \<Rightarrow> None | Some v \<Rightarrow> v)"

section \<open>Collapsing references\<close>

text \<open>
  \<open>PART_REF_REGEX\<close> is
  \<open>(?P<prefix>[a-z{sc}\d]*[a-z{sc}])(?P<num>((?P<ref_num>\d+(\.\d+)?)(#(?P<subpart_num>\d+))?)?)\<close>
  with \<open>sc = \+\-\=\s\_\.\(\)\$\*\&\<close>, compiled with \<open>re.IGNORECASE\<close>.

  A match at the head of \<open>s\<close>: the greedy \<open>[a-z{sc}\d]*\<close> takes the longest run of prefix
  characters and gives back the digits at its end until a character of \<open>[a-z{sc}]\<close> is
  last; there is no match when the run holds none.  The digits given back are
  \<open>ref_num\<close>; the character after the run is no prefix character, hence not \<open>.\<close>, so
  \<open>(\.\d+)?\<close> is empty; a \<open>#\<close> followed by digits is the sub-part.  Without digits after
  the prefix the group \<open>num\<close> is empty.
\<close>

definition is_special :: "char \<Rightarrow> bool" where
  "is_special c = (List.member ''+-=_.()$*&'' c \<or> isspace c)"

definition is_prefix_end :: "char \<Rightarrow> bool" where
  "is_prefix_end c = (isalpha c \<or> is_special c)"

definition is_prefix_char :: "char \<Rightarrow> bool" where
  "is_prefix_char c = (is_prefix_end c \<or> isdigit c)"

definition match_PART_REF_REGEX :: "string \<Rightarrow> (string \<times> string) option" where
  "match_PART_REF_REGEX s =
    (let run = takeWhile is_prefix_char s;
         rest = dropWhile is_prefix_char s;
         ref_num = rev (takeWhile (\<lambda>c. \<not> is_prefix_end c) (rev run));
         prefix = take (length run - length ref_num) run;
         subpart_num = (case rest of
              [] \<Rightarrow> []
            | c # r \<Rightarrow> if c = CHR ''#'' \<and> takeWhile isdigit r \<noteq> [] then c # takeWhile isdigit r else []);
         num = (if ref_num = [] then [] else ref_num @ subpart_num)
     in if prefix = [] then None else Some (prefix, num))"

text \<open>\<open>re.search\<close>: the first position of the string with a match.\<close>

fun search_PART_REF_REGEX :: "string \<Rightarrow> (string \<times> string) option" where
  "search_PART_REF_REGEX [] = None"
| "search_PART_REF_REGEX (c # cs) =
     (case match_PART_REF_REGEX (c # cs) of
        Some m \<Rightarrow> Some m
      | None \<Rightarrow> search_PART_REF_REGEX cs)"

text \<open>
  The entries of \<open>nums\<close> after \<open>to_int\<close> are integers or strings; an entry of
  \<open>num_ranges\<close> is such an entry or a two-element list.
\<close>

datatype refnum = IntNum nat | StrNum string

datatype num_range = Single refnum | Range nat nat

text \<open>
  \<open>nums.sort(key=get_refnum)\<close> with \<open>get_refnum = int(re.match('\d+', refnum).group(0))\<close>:
  the key is computed for every entry; for an entry without a leading digit \<open>re.match\<close>
  returns \<open>None\<close> and the attribute access raises.  The sort is stable.
\<close>

definition get_refnum :: "string \<Rightarrow> nat" where
  "get_refnum refnum = nat_of_digits (takeWhile isdigit refnum)"

definition sort_nums :: "string list \<Rightarrow> py_error + string list" where
  "sort_nums nums =
     (if list_ex (\<lambda>n. takeWhile isdigit n = []) nums then Inl AttributeError
      else Inr (sort_key get_refnum nums))"

text \<open>
  \<open>to_int\<close> is applied to \<open>num\<close> groups of \<open>PART_REF_REGEX\<close> only (digits, then
  optionally \<open>#\<close> and digits); on these \<open>int(n)\<close> succeeds exactly when all characters are
  digits, and raises \<open>ValueError\<close> (caught) otherwise.
\<close>

definition to_int :: "string \<Rightarrow> refnum" where
  "to_int n = (if n \<noteq> [] \<and> list_all isdigit n then IntNum (nat_of_digits n) else StrNum n)"

text \<open>
  The \<open>for range_end in range(range_start + 2, len(nums))\<close> loop: \<open>first\<close> is
  \<open>nums[range_start]\<close>, the last argument holds \<open>(num_range, next_range_start)\<close>,
  a \<open>break\<close> returns it as it is.
\<close>

fun extend_range :: "refnum list \<Rightarrow> nat \<Rightarrow> nat \<Rightarrow> nat list \<Rightarrow> num_range \<times> nat \<Rightarrow> num_range \<times> nat" where
  "extend_range nums range_start first [] acc = acc"
| "extend_range nums range_start first (range_end # more) acc =
     (case nums ! range_end of
        StrNum _ \<Rightarrow> acc
      | IntNum n \<Rightarrow>
          if int range_end - int range_start \<noteq> int n - int first then acc
          else extend_range nums range_start first more (Range first n, range_end + 1))"

lemma extend_range_next:
  "range_start < snd acc \<Longrightarrow> list_all (\<lambda>e. range_start < e) es \<Longrightarrow>
   range_start < snd (extend_range nums range_start first es acc)"
  by (induction es arbitrary: acc) (auto split: refnum.splits)

definition find_range :: "refnum list \<Rightarrow> nat \<Rightarrow> num_range \<times> nat" where
  "find_range nums range_start =
     (case nums ! range_start of
        StrNum s \<Rightarrow> (Single (StrNum s), range_start + 1)
      | IntNum n \<Rightarrow> extend_range nums range_start n [range_start + 2 ..< length nums]
                      (Single (IntNum n), range_start + 1))"

lemma find_range_next: "range_start < snd (find_range nums range_start)"
  by (auto simp: find_range_def list_all_iff intro!: extend_range_next split: refnum.splits)

text \<open>The \<open>while range_start < len(nums)\<close> loop.\<close>

function ranges_from :: "refnum list \<Rightarrow> nat \<Rightarrow> num_range list" where
  "ranges_from nums range_start =
     (if range_start < length nums then
        fst (find_range nums range_start) # ranges_from nums (snd (find_range nums range_start))
      else [])"
  by pat_completeness auto
termination
proof (relation "measure (\<lambda>(nums, range_start). length nums - range_start)")
  show "wf (measure (\<lambda>(nums, range_start). length nums - range_start))" by simp
next
  fix nums :: "refnum list" and range_start :: nat
  assume "range_start < length nums"
  moreover have "range_start < snd (find_range nums range_start)" by (rule find_range_next)
  ultimately show "((nums, snd (find_range nums range_start)), (nums, range_start))
        \<in> measure (\<lambda>(nums, range_start). length nums - range_start)"
    by simp
qed

declare ranges_from.simps [simp del]

definition convert_to_ranges :: "string list \<Rightarrow> py_error + num_range list" where
  "convert_to_ranges nums =
     (case sort_nums nums of
        Inl e \<Rightarrow> Inl e
      | Inr sorted_nums \<Rightarrow> Inr (ranges_from (map to_int sorted_nums) 0))"

text \<open>\<open>prefix_nums.setdefault(prefix, []).append(num)\<close>\<close>

fun append_num :: "(string \<times> string list) list \<Rightarrow> string \<Rightarrow> string \<Rightarrow> (string \<times> string list) list" where
  "append_num [] prefix num = [(prefix, [num])]"
| "append_num ((p, nums) # d) prefix num =
     (if p = prefix then (p, nums @ [num]) # d else (p, nums) # append_num d prefix num)"

definition not_recognized_msg :: "string \<Rightarrow> string" where
  "not_recognized_msg ref = ''Not recognized characters used in <'' @ ref @
     ''> reference. Adivise: edit it in your BOM/Schematic.''"

fun partition_refs :: "string list \<Rightarrow> (string \<times> string list) list \<Rightarrow> py_error + (string \<times> string list) list" where
  "partition_refs [] prefix_nums = Inr prefix_nums"
| "partition_refs (ref # refs) prefix_nums =
     (case search_PART_REF_REGEX ref of
        None \<Rightarrow> Inl (SystemExit (not_recognized_msg ref))
      | Some (prefix, num) \<Rightarrow> partition_refs refs (append_num prefix_nums prefix num))"

fun convert_all :: "(string \<times> string list) list \<Rightarrow> py_error + (string \<times> num_range list) list" where
  "convert_all [] = Inr []"
| "convert_all ((prefix, nums) # d) =
     (case convert_to_ranges nums of
        Inl e \<Rightarrow> Inl e
      | Inr ranges \<Rightarrow> (case convert_all d of Inl e \<Rightarrow> Inl e | Inr d' \<Rightarrow> Inr ((prefix, ranges) # d')))"

definition format_refnum :: "refnum \<Rightarrow> string" where
  "format_refnum n = (case n of IntNum i \<Rightarrow> str_of_nat i | StrNum s \<Rightarrow> s)"

definition format_range :: "string \<Rightarrow> num_range \<Rightarrow> string" where
  "format_range prefix num =
     (case num of
        Range a b \<Rightarrow> prefix @ str_of_nat a @ ''-'' @ prefix @ str_of_nat b
      | Single n \<Rightarrow> prefix @ format_refnum n)"

definition collapse_refs :: "string list \<Rightarrow> py_error + string" where
  "collapse_refs refs =
     (case partition_refs refs [] of
        Inl e \<Rightarrow> Inl e
      | Inr prefix_nums \<Rightarrow>
          (case convert_all prefix_nums of
             Inl e \<Rightarrow> Inl e
           | Inr prefix_ranges \<Rightarrow>
               Inr (str_join '','' (concat (map (\<lambda>(prefix, nums). map (format_range prefix) nums) prefix_ranges)))))"

text \<open>
  Claim C8.  \<open>collapse_refs\<close> applied to
  \<open>["R3","R4","R7","R8","R9","R10","R11","R13","R14"]\<close> returns the string
  \<open>"R3,R4,R7-R11,R13,R14"\<close>: the run 7..11 of five consecutive numbers becomes
  \<open>R7-R11\<close>, the runs 3,4 and 13,14 of two stay individual references.
\<close>

theorem collapse_refs_example:
  "collapse_refs [''R3'', ''R4'', ''R7'', ''R8'', ''R9'', ''R10'', ''R11'', ''R13'', ''R14'']
     = Inr ''R3,R4,R7-R11,R13,R14''"
  by code_simp

section \<open>Splitting sub-parts\<close>

text \<open>\<open>subpart_list(part) = re.split(PART_SEPRTR, part.strip())\<close>\<close>

definition subpart_list :: "string \<Rightarrow> string list" where
  "subpart_list part = split_PART_SEPRTR (str_strip part)"

definition SUB_SEPRTR :: string where
  "SUB_SEPRTR = ''#''"

definition REPLICATE_MANF :: string where
  "REPLICATE_MANF = ''~''"

text \<open>
  The first loop of \<open>subpart_split\<close> over \<open>dist\<close>: it collects \<open>founded_fields\<close>,
  \<open>subparts_qty\<close> and \<open>subparts_manf_code\<close>.  A field bound to \<open>None\<close> makes
  \<open>subpart_list\<close> call \<open>None.strip()\<close>, which raises \<open>AttributeError\<close>.
\<close>

fun collect_codes :: "string list \<Rightarrow> pyfields \<Rightarrow> string list \<times> nat \<times> (string \<times> string list) list
    \<Rightarrow> py_error + (string list \<times> nat \<times> (string \<times> string list) list)" where
  "collect_codes [] part acc = Inr acc"
| "collect_codes (field_code # more) part (founded_fields, subparts_qty, subparts_manf_code) =
     (case map_of part field_code of
        None \<Rightarrow> collect_codes more part (founded_fields, subparts_qty, subparts_manf_code)
      | Some None \<Rightarrow> Inl AttributeError
      | Some (Some v) \<Rightarrow>
          collect_codes more part
            (founded_fields @ [field_code],
             max subparts_qty (length (subpart_list v)),
             dict_set subparts_manf_code field_code (subpart_list v)))"

text \<open>
  The manufacturer names: a missing \<open>manf\<close> field raises \<open>KeyError\<close>, which the inner
  handler turns into \<open>['']*subparts_qty\<close>.
\<close>

definition split_manf :: "pyfields \<Rightarrow> nat \<Rightarrow> py_error + string list" where
  "split_manf part subparts_qty =
     (case map_of part ''manf'' of
        None \<Rightarrow> Inr (replicate subparts_qty [])
      | Some None \<Rightarrow> Inl AttributeError
      | Some (Some v) \<Rightarrow>
          (let subparts_manf = subpart_list v in
           if length subparts_manf \<noteq> subparts_qty then
             (if length subparts_manf = 1 then Inr (replicate subparts_qty (subparts_manf ! 0))
              else Inr (subparts_manf @ replicate (subparts_qty - length subparts_manf) []))
           else Inr subparts_manf))"

text \<open>\<open>'{v}'.format(v=x)\<close> for a string or \<open>None\<close>.\<close>

definition format_value :: "string option \<Rightarrow> string" where
  "format_value v = (case v of None \<Rightarrow> ''None'' | Some s \<Rightarrow> s)"

text \<open>
  The loop over \<open>founded_fields\<close> for one sub-part index; an index past the end of a
  code list raises \<open>IndexError\<close>, which is caught and skips that field.
\<close>

fun subpart_fields :: "string list \<Rightarrow> (string \<times> string list) list \<Rightarrow> string option \<Rightarrow> nat \<Rightarrow> nat
    \<Rightarrow> pyfields \<Rightarrow> pyfields" where
  "subpart_fields [] codes part_actual_value subparts_index subparts_qty subpart_actual = subpart_actual"
| "subpart_fields (field_manf_dist_code # more) codes part_actual_value subparts_index subparts_qty
       subpart_actual =
     (let code_list = (case map_of codes field_manf_dist_code of None \<Rightarrow> [] | Some l \<Rightarrow> l) in
      if subparts_index < length code_list then
        (let p_manf_code = code_list ! subparts_index;
             a1 = dict_set subpart_actual ''value''
                    (Some (format_value part_actual_value @ '' - p'' @ str_of_nat (subparts_index + 1)
                           @ ''/'' @ str_of_nat subparts_qty));
             (subpart_qty, subpart_part) = manf_code_qtypart p_manf_code;
             a2 = dict_set a1 field_manf_dist_code (Some subpart_part);
             a3 = dict_set a2 (field_manf_dist_code @ ''_qty'') (Some subpart_qty)
         in subpart_fields more codes part_actual_value subparts_index subparts_qty a3)
      else subpart_fields more codes part_actual_value subparts_index subparts_qty subpart_actual)"

text \<open>
  The loop \<open>for subparts_index in range(subparts_qty)\<close>, over the list of indices.  The
  state is \<open>splitted_components\<close> and the local variable \<open>p_manf\<close>, which is unbound
  (\<open>None\<close>) until its first assignment and keeps its value from one part to the next;
  reading it unbound raises \<open>UnboundLocalError\<close>.  \<open>subparts_manf\<close> has at least
  \<open>subparts_qty\<close> entries.
\<close>

fun emit_subparts :: "nat list \<Rightarrow> string \<Rightarrow> pyfields \<Rightarrow> string option \<Rightarrow> string list
    \<Rightarrow> (string \<times> string list) list \<Rightarrow> string list \<Rightarrow> nat
    \<Rightarrow> pycomponents \<times> string option \<Rightarrow> py_error + (pycomponents \<times> string option)" where
  "emit_subparts [] part_ref part part_actual_value founded_fields codes subparts_manf subparts_qty st = Inr st"
| "emit_subparts (subparts_index # more) part_ref part part_actual_value founded_fields codes
       subparts_manf subparts_qty (splitted_components, p_manf) =
     (let subpart_actual = subpart_fields founded_fields codes part_actual_value subparts_index
                             subparts_qty part;
          p_manf' = (if subparts_manf ! subparts_index \<noteq> REPLICATE_MANF
                     then Some (subparts_manf ! subparts_index) else p_manf)
      in case p_manf' of
           None \<Rightarrow> Inl UnboundLocalError
         | Some m \<Rightarrow>
             emit_subparts more part_ref part part_actual_value founded_fields codes subparts_manf
               subparts_qty
               (dict_set splitted_components (part_ref @ SUB_SEPRTR @ str_of_nat (subparts_index + 1))
                  (dict_set subpart_actual ''manf'' (Some m)),
                p_manf'))"

text \<open>
  The branch for a single sub-part: every founded field is decoded at index 0; the
  part is stored under its own designator as soon as one field has been decoded (the
  stored dictionary is the one the later iterations go on updating).
\<close>

fun single_fields :: "string list \<Rightarrow> (string \<times> string list) list \<Rightarrow> pyfields \<times> bool \<Rightarrow> pyfields \<times> bool" where
  "single_fields [] codes acc = acc"
| "single_fields (field_manf_dist_code # more) codes (part_actual, stored) =
     (case (case map_of codes field_manf_dist_code of None \<Rightarrow> [] | Some l \<Rightarrow> l) of
        [] \<Rightarrow> single_fields more codes (part_actual, stored)
      | p_manf_code # _ \<Rightarrow>
          (let (part_qty, part_part) = manf_code_qtypart p_manf_code;
               a1 = dict_set part_actual field_manf_dist_code (Some part_part);
               a2 = dict_set a1 (field_manf_dist_code @ ''_qty'') (Some part_qty)
           in single_fields more codes (a2, True)))"

text \<open>
  The body of the loop over \<open>components.items()\<close>.  \<open>part_actual['value']\<close> raises
  \<open>KeyError\<close> for a part without a \<open>value\<close> field; the outer handler catches it and
  goes on with the next part.
\<close>

definition split_part :: "string list \<Rightarrow> string \<times> pyfields \<Rightarrow> pycomponents \<times> string option
    \<Rightarrow> py_error + (pycomponents \<times> string option)" where
  "split_part dist item st =
     (case item of (part_ref, part) \<Rightarrow>
      case st of (splitted_components, p_manf) \<Rightarrow>
      case collect_codes dist part ([], 0, []) of
        Inl e \<Rightarrow> Inl e
      | Inr (founded_fields, subparts_qty, subparts_manf_code) \<Rightarrow>
          if founded_fields = [] then Inr (dict_set splitted_components part_ref part, p_manf)
          else
            (case split_manf part subparts_qty of
               Inl e \<Rightarrow> Inl e
             | Inr subparts_manf \<Rightarrow>
                 if subparts_qty > 1 then
                   (case map_of part ''value'' of
                      None \<Rightarrow> Inr (splitted_components, p_manf)
                    | Some part_actual_value \<Rightarrow>
                        emit_subparts [0 ..< subparts_qty] part_ref part part_actual_value
                          founded_fields subparts_manf_code subparts_manf subparts_qty
                          (splitted_components, p_manf))
                 else
                   (case single_fields founded_fields subparts_manf_code (part, False) of
                      (part_actual, stored) \<Rightarrow>
                        Inr (if stored then dict_set splitted_components part_ref part_actual
                             else splitted_components, p_manf))))"

fun split_parts :: "string list \<Rightarrow> pycomponents \<Rightarrow> pycomponents \<times> string option
    \<Rightarrow> py_error + (pycomponents \<times> string option)" where
  "split_parts dist [] st = Inr st"
| "split_parts dist (item # items) st =
     (case split_part dist item st of
        Inl e \<Rightarrow> Inl e
      | Inr st' \<Rightarrow> split_parts dist items st')"

text \<open>
  \<open>subpart_split(components)\<close>; \<open>distributor_dict\<close> is imported from another module of
  the package, so its keys are the parameter \<open>distributors\<close>.
\<close>

definition dist_fields :: "string list \<Rightarrow> string list" where
  "dist_fields distributors = map (\<lambda>d. d @ ''#'') distributors @ [''manf#'']"

definition subpart_split :: "string list \<Rightarrow> pycomponents \<Rightarrow> py_error + pycomponents" where
  "subpart_split distributors components =
     (case split_parts (dist_fields distributors) components ([], None) of
        Inl e \<Rightarrow> Inl e
      | Inr (splitted_components, p_manf) \<Rightarrow> Inr splitted_components)"

subsection \<open>Properties of the splitter\<close>

text \<open>
  \<open>re.split\<close> returns at least one segment, so the index 0 of the single sub-part
  branch always exists; and \<open>subparts_manf\<close> has at least \<open>subparts_qty\<close> entries, so
  \<open>subparts_manf[subparts_index]\<close> always exists.
\<close>

lemma re_split_sep_nonempty: "re_split_sep sep esc seg s \<noteq> []"
  by (induction sep esc seg s rule: re_split_sep.induct) (auto split: option.splits)

lemma subpart_list_nonempty: "subpart_list part \<noteq> []"
  by (simp add: subpart_list_def split_PART_SEPRTR_def re_split_sep_nonempty)

lemma split_manf_length:
  "split_manf part subparts_qty = Inr subparts_manf \<Longrightarrow> subparts_qty \<le> length subparts_manf"
  by (auto simp: split_manf_def Let_def split: option.splits if_splits)

text \<open>
  Claim C2.  The part \<open>U1\<close> with \<open>value = "IC"\<close>, \<open>manf# = "PARTG1;PARTG2;PARTG3"\<close> and
  \<open>mouser# = "PARTM1;PARTM2"\<close>, with \<open>mouser\<close> a configured distributor, is split into
  \<open>U1#1\<close>, \<open>U1#2\<close> and \<open>U1#3\<close>, each with the codes decoded at its index.  The third
  one is a copy of the original part in which only the fields found at index 2 are
  overwritten: its \<open>mouser#\<close> field is still there and holds the whole original
  string \<open>"PARTM1;PARTM2"\<close>.
\<close>

theorem subpart_split_three_subparts:
  "subpart_split [''mouser'']
     [(''U1'', [(''value'', Some ''IC''), (''manf#'', Some ''PARTG1;PARTG2;PARTG3''),
                (''mouser#'', Some ''PARTM1;PARTM2'')])]
   = Inr [(''U1#1'', [(''value'', Some ''IC - p1/3''), (''manf#'', Some ''PARTG1''),
                      (''mouser#'', Some ''PARTM1''), (''mouser#_qty'', Some ''1''),
                      (''manf#_qty'', Some ''1''), (''manf'', Some '''')]),
          (''U1#2'', [(''value'', Some ''IC - p2/3''), (''manf#'', Some ''PARTG2''),
                      (''mouser#'', Some ''PARTM2''), (''mouser#_qty'', Some ''1''),
                      (''manf#_qty'', Some ''1''), (''manf'', Some '''')]),
          (''U1#3'', [(''value'', Some ''IC - p3/3''), (''manf#'', Some ''PARTG3''),
                      (''mouser#'', Some ''PARTM1;PARTM2''),
                      (''manf#_qty'', Some ''1''), (''manf'', Some '''')])]"
  by code_simp

lemma collect_codes_founded:
  "collect_codes fs part (f0, q0, c0) = Inr (f, q, c) \<Longrightarrow>
   length f0 \<le> length f \<and> (length f = length f0 \<longrightarrow> q = q0)"
proof (induction fs arbitrary: f0 q0 c0)
  case Nil
  then show ?case by simp
next
  case (Cons fc fs)
  show ?case
  proof (cases "map_of part fc")
    case None
    with Cons.prems have "collect_codes fs part (f0, q0, c0) = Inr (f, q, c)" by simp
    from Cons.IH[OF this] show ?thesis .
  next
    case (Some v)
    show ?thesis
    proof (cases v)
      case None
      with Some Cons.prems show ?thesis by simp
    next
      case (Some s)
      with \<open>map_of part fc = Some v\<close> Cons.prems
      have "collect_codes fs part (f0 @ [fc], max q0 (length (subpart_list s)),
              dict_set c0 fc (subpart_list s)) = Inr (f, q, c)" by simp
      from Cons.IH[OF this] show ?thesis by auto
    qed
  qed
qed

lemma split_parts_append:
  "split_parts dist (xs @ ys) st =
     (case split_parts dist xs st of Inl e \<Rightarrow> Inl e | Inr st' \<Rightarrow> split_parts dist ys st')"
  by (induction xs arbitrary: st) (auto split: sum.splits)

lemma split_part_without_value:
  assumes cc: "collect_codes dist part ([], 0, []) = Inr (founded_fields, subparts_qty, codes)"
    and n: "1 < subparts_qty"
    and nv: "map_of part ''value'' = None"
    and mf: "map_of part ''manf'' \<noteq> Some None"
  shows "split_part dist (part_ref, part) st = Inr st"
proof -
  from collect_codes_founded[OF cc] n have ne: "founded_fields \<noteq> []" by auto
  from mf have "\<exists>ms. split_manf part subparts_qty = Inr ms"
    by (auto simp: split_manf_def Let_def split: option.splits)
  then obtain ms where ms: "split_manf part subparts_qty = Inr ms" ..
  obtain sc pm where st: "st = (sc, pm)" by (cases st)
  show ?thesis
    unfolding split_part_def st using cc ne ms n nv by simp
qed

text \<open>
  Claim C10.  Let the manufacturer/distributor code fields of a part be strings that
  encode more than one sub-part (\<open>subparts_qty > 1\<close>), let the part have no \<open>value\<close>
  field, and let its \<open>manf\<close> field, if present, be a string.  Then the \<open>KeyError\<close> of
  \<open>part_actual['value']\<close> is caught by the outer handler: the loop body leaves
  \<open>splitted_components\<close> (and \<open>p_manf\<close>) as they were, and \<open>subpart_split\<close> returns
  what it returns for the input without that part, so neither the part nor any of its
  sub-parts is in the output.
\<close>

theorem subpart_split_drops_part_without_value:
  assumes "collect_codes (dist_fields distributors) part ([], 0, [])
             = Inr (founded_fields, subparts_qty, codes)"
    and "1 < subparts_qty"
    and "map_of part ''value'' = None"
    and "map_of part ''manf'' \<noteq> Some None"
  shows "split_part (dist_fields distributors) (part_ref, part) st = Inr st \<and>
         subpart_split distributors (before @ (part_ref, part) # rest)
           = subpart_split distributors (before @ rest)"
proof -
  have step: "\<And>st. split_part (dist_fields distributors) (part_ref, part) st = Inr st"
    by (rule split_part_without_value[OF assms])
  have "split_parts (dist_fields distributors) (before @ (part_ref, part) # rest) ([], None)
      = split_parts (dist_fields distributors) (before @ rest) ([], None)"
    by (simp add: split_parts_append step split: sum.splits)
  then show ?thesis by (simp add: subpart_split_def step)
qed

theorem subpart_split_drops_part_without_value_witness:
  "collect_codes (dist_fields [''mouser'']) [(''manf#'', Some ''A;B'')] ([], 0, [])
     = Inr ([''manf#''], 2, [(''manf#'', [''A'', ''B''])]) \<and>
   map_of [(''manf#'', Some ''A;B'')] ''value'' = None \<and>
   subpart_split [''mouser'']
     [(''R1'', [(''value'', Some ''1k'')]), (''U1'', [(''manf#'', Some ''A;B'')])]
     = Inr [(''R1'', [(''value'', Some ''1k'')])]"
proof -
  have h1: "collect_codes (dist_fields [''mouser'']) [(''manf#'', Some ''A;B'')] ([], 0, [])
     = Inr ([''manf#''], 2, [(''manf#'', [''A'', ''B''])])" by code_simp
  have h2: "1 < (2::nat)" by simp
  have h3: "map_of [(''manf#'', Some ''A;B'')] ''value'' = None" by simp
  have h4: "map_of [(''manf#'', Some ''A;B'')] ''manf'' \<noteq> Some None" by simp
  have r: "subpart_split [''mouser''] ([(''R1'', [(''value'', Some ''1k'')])] @ [])
     = Inr [(''R1'', [(''value'', Some ''1k'')])]" by code_simp
  from subpart_split_drops_part_without_value
         [OF h1 h2 h3 h4, of "''U1''" "([], None)" "[(''R1'', [(''value'', Some ''1k'')])]" "[]"]
  have "subpart_split [''mouser'']
      ([(''R1'', [(''value'', Some ''1k'')])] @ [(''U1'', [(''manf#'', Some ''A;B'')])])
      = subpart_split [''mouser''] ([(''R1'', [(''value'', Some ''1k'')])] @ [])" by simp
  with r h1 h3 show ?thesis by simp
qed

section \<open>Field names\<close>

text \<open>
  \<open>field_name_translations\<close> is built by assignments: the fixed manufacturer aliases,
  then, for every stub and every distributor, three spellings of the distributor's
  code field, then five more entries.  A later assignment to a key replaces the
  earlier one, so a lookup finds the last entry for its key: the first one in the
  reversed list of assignments.
\<close>

definition manf_aliases :: "(string \<times> string) list" where
  "manf_aliases =
    [(''mpn'', ''manf#''), (''pn'', ''manf#''), (''manf_num'', ''manf#''), (''manf-num'', ''manf#''),
     (''mfg_num'', ''manf#''), (''mfg-num'', ''manf#''), (''mfg#'', ''manf#''),
     (''man_num'', ''manf#''), (''man-num'', ''manf#''), (''man#'', ''manf#''),
     (''mnf_num'', ''manf#''), (''mnf-num'', ''manf#''), (''mnf#'', ''manf#''),
     (''mfr_num'', ''manf#''), (''mfr-num'', ''manf#''), (''mfr#'', ''manf#''),
     (''part-num'', ''manf#''), (''part_num'', ''manf#''), (''p#'', ''manf#''), (''part#'', ''manf#''),
     (''manf'', ''manf''), (''manufacturer'', ''manf''), (''mnf'', ''manf''), (''man'', ''manf''),
     (''mfg'', ''manf''), (''mfr'', ''manf'')]"

definition stubs :: "string list" where
  "stubs = [''part#'', ''#'', ''p#'', ''pn'', ''vendor#'', ''vp#'', ''vpn'', ''num'']"

definition dist_aliases :: "string list \<Rightarrow> (string \<times> string) list" where
  "dist_aliases distributors =
     concat (map (\<lambda>stub. concat (map (\<lambda>dist.
        [(dist @ stub, dist @ ''#''),
         (dist @ ''_'' @ stub, dist @ ''#''),
         (dist @ ''-'' @ stub, dist @ ''#'')]) distributors)) stubs)"

definition other_aliases :: "(string \<times> string) list" where
  "other_aliases =
    [(''variant'', ''variant''), (''version'', ''variant''), (''dnp'', ''dnp''),
     (''nopop'', ''dnp''), (''description'', ''desc'')]"

definition field_name_translations :: "string list \<Rightarrow> string \<Rightarrow> string option" where
  "field_name_translations distributors =
     map_of (rev (manf_aliases @ dist_aliases distributors @ other_aliases))"

text \<open>\<open>field_name_translations.get(f.lower(), f.lower())\<close>\<close>

definition translate_field :: "string list \<Rightarrow> string \<Rightarrow> string" where
  "translate_field distributors f =
     (case field_name_translations distributors (str_lower f) of
        None \<Rightarrow> str_lower f
      | Some t \<Rightarrow> t)"

definition FIELDS_MANF :: "string list \<Rightarrow> string list" where
  "FIELDS_MANF distributors =
     [''manf#'', ''manf#_qty'', ''manf''] @ map (\<lambda>d. d @ ''#'') distributors
       @ map (\<lambda>d. d @ ''#_qty'') distributors"

section \<open>Grouping\<close>

text \<open>
  The class \<open>IdenticalComponents\<close>.  The attribute \<open>fields\<close> (here \<open>grp_fields\<close>, as
  the record package keeps the name \<open>fields\<close> for itself) is set by the last loop of
  \<open>group_parts\<close> only; until then it is the empty dictionary here.
\<close>

record IdenticalComponents =
  refs :: "string list"
  manf_nums :: "string option list"
  grp_fields :: pyfields

text \<open>
  \<open>components[ref]\<close> and \<open>components[ref].get('manf#')\<close>.  Every reference that
  \<open>group_parts\<close> looks up is a key of \<open>components\<close>.
\<close>

definition component_fields :: "pycomponents \<Rightarrow> string \<Rightarrow> pyfields" where
  "component_fields components ref = (case map_of components ref of None \<Rightarrow> [] | Some fs \<Rightarrow> fs)"

definition get_manf :: "pycomponents \<Rightarrow> string \<Rightarrow> string option" where
  "get_manf components ref = dict_get (component_fields components ref) ''manf#''"

text \<open>\<open>sub in s\<close> on strings.\<close>

fun str_contains :: "string \<Rightarrow> string \<Rightarrow> bool" where
  "str_contains sub [] = (sub = [])"
| "str_contains sub (c # cs) = (take (length sub) (c # cs) = sub \<or> str_contains sub cs)"

definition merge_rejected_msg :: "string \<Rightarrow> string" where
  "merge_rejected_msg c =
     ''Manufactutor/distributor codes and manufacture company '' @ [CHR 0x22] @ c @ [CHR 0x22]
       @ '' can'' @ [CHR 0x27] @ ''t be ignored to create the components groups.''"

text \<open>
  The check of the merge fields (lines 171 to 174): the normalized list, or the
  \<open>exit\<close> for the first field of \<open>FIELDS_MANF\<close> that it holds.
\<close>

definition check_fields_merge :: "string list \<Rightarrow> string list \<Rightarrow> py_error + string list" where
  "check_fields_merge distributors fields_merge =
     (let fields_merge1 = map (translate_field distributors) fields_merge in
      case find (\<lambda>c. List.member fields_merge1 c) (FIELDS_MANF distributors) of
        Some c \<Rightarrow> Inl (SystemExit (merge_rejected_msg c))
      | None \<Rightarrow> Inr fields_merge1)"

text \<open>
  The hash of a part (lines 190 and 191).  \<open>SEPRTR\<close> is imported from another module
  and \<open>hash\<close> is Python's built-in, so both are parameters.  The keys of a dictionary
  are distinct, so sorting the items sorts them by key.
\<close>

definition hash_fields :: "string list \<Rightarrow> string \<Rightarrow> string list \<Rightarrow> pyfields \<Rightarrow> pyfields" where
  "hash_fields distributors SEPRTR fields_merge fs =
     filter (\<lambda>(k, v). \<not> List.member (FIELDS_MANF distributors @ fields_merge) k
                       \<and> \<not> str_contains SEPRTR k) fs"

definition component_hash :: "(pyfields \<Rightarrow> 'h) \<Rightarrow> string list \<Rightarrow> string \<Rightarrow> string list \<Rightarrow> pyfields \<Rightarrow> 'h" where
  "component_hash hash distributors SEPRTR fields_merge fs =
     hash (sort_key fst (hash_fields distributors SEPRTR fields_merge fs))"

text \<open>
  \<open>manf_nums\<close> is a Python set; it is kept here as the list of its elements in the
  order of their first insertion.  The order in which Python iterates over the set is
  not fixed by the language; it only decides the order of the sub-groups of a split.
\<close>

definition set_add :: "'a list \<Rightarrow> 'a \<Rightarrow> 'a list" where
  "set_add s x = (if List.member s x then s else s @ [x])"

text \<open>The \<open>try\<close>/\<open>except KeyError\<close> of lines 195 to 206 on the dictionary \<open>component_groups\<close>.\<close>

fun add_to_groups :: "('h \<times> IdenticalComponents) list \<Rightarrow> 'h \<Rightarrow> string \<Rightarrow> string option
    \<Rightarrow> ('h \<times> IdenticalComponents) list" where
  "add_to_groups [] h ref manf_num = [(h, \<lparr>refs = [ref], manf_nums = [manf_num], grp_fields = []\<rparr>)]"
| "add_to_groups ((h', grp) # component_groups) h ref manf_num =
     (if h' = h then
        (h', grp\<lparr>refs := refs grp @ [ref], manf_nums := set_add (manf_nums grp) manf_num\<rparr>)
          # component_groups
      else (h', grp) # add_to_groups component_groups h ref manf_num)"

fun hash_groups :: "(pyfields \<Rightarrow> 'h) \<Rightarrow> string list \<Rightarrow> string \<Rightarrow> string list \<Rightarrow> pycomponents
    \<Rightarrow> ('h \<times> IdenticalComponents) list \<Rightarrow> ('h \<times> IdenticalComponents) list" where
  "hash_groups hash distributors SEPRTR fields_merge [] component_groups = component_groups"
| "hash_groups hash distributors SEPRTR fields_merge ((ref, fs) # components) component_groups =
     hash_groups hash distributors SEPRTR fields_merge components
       (add_to_groups component_groups (component_hash hash distributors SEPRTR fields_merge fs)
          ref (dict_get fs ''manf#''))"

text \<open>The body of the loop of lines 225 to 245 for one provisional group.\<close>

definition split_group :: "pycomponents \<Rightarrow> IdenticalComponents \<Rightarrow> IdenticalComponents list" where
  "split_group components grp =
     (let num_manf_nums = length (manf_nums grp) in
      if num_manf_nums = 1 then [grp]
      else if num_manf_nums = 2 \<and> List.member (manf_nums grp) None then [grp]
      else map (\<lambda>manf_num.
                 \<lparr>refs = filter (\<lambda>ref. get_manf components ref = manf_num) (refs grp),
                  manf_nums = [manf_num], grp_fields = []\<rparr>) (manf_nums grp))"

definition refine_groups :: "pycomponents \<Rightarrow> ('h \<times> IdenticalComponents) list \<Rightarrow> IdenticalComponents list" where
  "refine_groups components component_groups =
     concat (map (\<lambda>(g, grp). split_group components grp) component_groups)"

text \<open>
  The merge of one field in one group (lines 258 to 264).  \<open>components_grp\<close> holds the
  dictionaries of \<open>components\<close> themselves, so its values are read through
  \<open>components\<close>.  The keys of \<open>Counter(values_field)\<close> are the distinct values in the
  order of their first occurrence.
\<close>

definition SGROUP_SEPRTR :: string where
  "SGROUP_SEPRTR = [CHR 0x0A]"

fun set_component_field :: "pycomponents \<Rightarrow> string \<Rightarrow> string \<Rightarrow> string option \<Rightarrow> pycomponents" where
  "set_component_field [] r f v = []"
| "set_component_field ((ref, fs) # components) r f v =
     (if ref = r then (ref, dict_set fs f v) # components
      else (ref, fs) # set_component_field components r f v)"

fun occurrence_lines :: "string \<Rightarrow> (string \<times> string list) list \<Rightarrow> py_error + string list" where
  "occurrence_lines SEPRTR [] = Inr []"
| "occurrence_lines SEPRTR ((t, r) # ocurrences) =
     (case collapse_refs r of
        Inl e \<Rightarrow> Inl e
      | Inr collapsed \<Rightarrow>
          (case occurrence_lines SEPRTR ocurrences of
             Inl e \<Rightarrow> Inl e
           | Inr rest \<Rightarrow> Inr ((collapsed @ SEPRTR @ '' '' @ t) # rest)))"

definition merge_field :: "string \<Rightarrow> string list \<Rightarrow> pycomponents \<Rightarrow> string \<Rightarrow> py_error + pycomponents" where
  "merge_field SEPRTR grp_refs components f =
     (let values_field = map (\<lambda>r. case dict_get (component_fields components r) f of
                                     None \<Rightarrow> [] | Some v \<Rightarrow> v) grp_refs;
          ocurrences = map (\<lambda>v_g. (v_g, filter (\<lambda>r. dict_get (component_fields components r) f = Some v_g)
                                            grp_refs))
                         (rev (remdups (rev values_field)))
      in if length ocurrences > 1 then
           (case occurrence_lines SEPRTR ocurrences of
              Inl e \<Rightarrow> Inl e
            | Inr lines \<Rightarrow>
                Inr (fold (\<lambda>r cs. set_component_field cs r f (Some (str_join SGROUP_SEPRTR lines)))
                       grp_refs components))
         else Inr components)"

fun merge_group :: "string \<Rightarrow> string list \<Rightarrow> string list \<Rightarrow> pycomponents \<Rightarrow> py_error + pycomponents" where
  "merge_group SEPRTR grp_refs [] components = Inr components"
| "merge_group SEPRTR grp_refs (f # fields_merge) components =
     (case merge_field SEPRTR grp_refs components f of
        Inl e \<Rightarrow> Inl e
      | Inr components' \<Rightarrow> merge_group SEPRTR grp_refs fields_merge components')"

fun merge_groups :: "string \<Rightarrow> string list \<Rightarrow> IdenticalComponents list \<Rightarrow> pycomponents \<Rightarrow> py_error + pycomponents" where
  "merge_groups SEPRTR fields_merge [] components = Inr components"
| "merge_groups SEPRTR fields_merge (grp # new_component_groups) components =
     (case merge_group SEPRTR (refs grp) fields_merge components of
        Inl e \<Rightarrow> Inl e
      | Inr components' \<Rightarrow> merge_groups SEPRTR fields_merge new_component_groups components')"

text \<open>
  The propagation of the field values (lines 273 to 284).  \<open>if grp_fields.get(key):\<close>
  tests the truth value of the stored string: a key that is missing and a key bound
  to the empty string both take the \<open>else\<close> branch.
\<close>

definition mismatch_msg :: "string \<Rightarrow> string \<Rightarrow> string \<Rightarrow> string \<Rightarrow> string" where
  "mismatch_msg ref key val old =
     ''Field value mismatch: ref='' @ ref @ '' field='' @ key @ '' value='' @ [CHR 0x27] @ val
       @ [CHR 0x27] @ '' group='' @ [CHR 0x27] @ old @ [CHR 0x27]"

fun scan_items :: "string \<Rightarrow> pyfields \<Rightarrow> pyfields \<Rightarrow> py_error + pyfields" where
  "scan_items ref [] gf = Inr gf"
| "scan_items ref ((key, None) # items) gf = scan_items ref items gf"
| "scan_items ref ((key, Some val) # items) gf =
     (case dict_get gf key of
        None \<Rightarrow> scan_items ref items (dict_set gf key (Some val))
      | Some old \<Rightarrow>
          if old \<noteq> [] then
            (if old \<noteq> val then Inl (SystemExit (mismatch_msg ref key val old))
             else scan_items ref items gf)
          else scan_items ref items (dict_set gf key (Some val)))"

fun scan_refs :: "pycomponents \<Rightarrow> string list \<Rightarrow> pyfields \<Rightarrow> py_error + pyfields" where
  "scan_refs components [] gf = Inr gf"
| "scan_refs components (ref # rest_refs) gf =
     (case scan_items ref (component_fields components ref) gf of
        Inl e \<Rightarrow> Inl e
      | Inr gf' \<Rightarrow> scan_refs components rest_refs gf')"

fun propagate_groups :: "pycomponents \<Rightarrow> IdenticalComponents list \<Rightarrow> py_error + IdenticalComponents list" where
  "propagate_groups components [] = Inr []"
| "propagate_groups components (grp # new_component_groups) =
     (case scan_refs components (refs grp) [] of
        Inl e \<Rightarrow> Inl e
      | Inr gf \<Rightarrow>
          (case propagate_groups components new_component_groups of
             Inl e \<Rightarrow> Inl e
           | Inr grps \<Rightarrow> Inr (grp\<lparr>grp_fields := gf\<rparr> # grps)))"

text \<open>
  \<open>group_parts(components, fields_merge)\<close>.  \<open>final_groups\<close> is
  \<open>new_component_groups\<close> after the loop of lines 225 to 245, \<open>merged_components\<close> is
  \<open>components\<close> after the merge of lines 252 to 264 (which normalizes the merge
  fields once more).
\<close>

definition final_groups :: "(pyfields \<Rightarrow> 'h) \<Rightarrow> string list \<Rightarrow> string \<Rightarrow> pycomponents \<Rightarrow> string list
    \<Rightarrow> IdenticalComponents list" where
  "final_groups hash distributors SEPRTR components fields_merge1 =
     refine_groups components
       (hash_groups hash distributors SEPRTR fields_merge1 components [])"

definition merged_components :: "string list \<Rightarrow> string \<Rightarrow> IdenticalComponents list \<Rightarrow> pycomponents
    \<Rightarrow> string list \<Rightarrow> py_error + pycomponents" where
  "merged_components distributors SEPRTR new_component_groups components fields_merge1 =
     (if fields_merge1 \<noteq> [] then
        merge_groups SEPRTR (map (translate_field distributors) fields_merge1)
          new_component_groups components
      else Inr components)"

definition group_parts :: "(pyfields \<Rightarrow> 'h) \<Rightarrow> string list \<Rightarrow> string \<Rightarrow> pycomponents \<Rightarrow> string list
    \<Rightarrow> py_error + IdenticalComponents list" where
  "group_parts hash distributors SEPRTR components fields_merge =
     (case check_fields_merge distributors fields_merge of
        Inl e \<Rightarrow> Inl e
      | Inr fields_merge1 \<Rightarrow>
          (let new_component_groups =
                 final_groups hash distributors SEPRTR components fields_merge1
           in case merged_components distributors SEPRTR new_component_groups components
                     fields_merge1 of
                Inl e \<Rightarrow> Inl e
              | Inr components' \<Rightarrow> propagate_groups components' new_component_groups))"

subsection \<open>Rejection of manufacturer and distributor fields as merge fields\<close>

lemma dist_aliases_values:
  "(k, v) \<in> set (dist_aliases distributors) \<Longrightarrow> \<exists>d \<in> set distributors. v = d @ ''#''"
  by (auto simp: dist_aliases_def)

lemma mpn_not_other: "map_of (rev other_aliases) ''mpn'' = None"
  by (simp add: other_aliases_def)

lemma mpn_manf: "map_of (rev manf_aliases) ''mpn'' = Some ''manf#''"
  by (simp add: manf_aliases_def)

lemma lower_mpn: "str_lower ''mpn'' = ''mpn''"
  by code_simp

lemma translate_mpn: "translate_field distributors ''mpn'' \<in> set (FIELDS_MANF distributors)"
proof (cases "map_of (rev (dist_aliases distributors)) ''mpn''")
  case None
  then have "field_name_translations distributors ''mpn'' = Some ''manf#''"
    by (simp add: field_name_translations_def map_add_def mpn_not_other mpn_manf)
  then show ?thesis by (simp add: translate_field_def lower_mpn FIELDS_MANF_def)
next
  case (Some v)
  then have "(''mpn'', v) \<in> set (dist_aliases distributors)"
    using map_of_SomeD by fastforce
  then obtain d where d: "d \<in> set distributors" "v = d @ ''#''"
    using dist_aliases_values by blast
  from Some have "field_name_translations distributors ''mpn'' = Some v"
    by (simp add: field_name_translations_def map_add_def mpn_not_other)
  with d show ?thesis by (auto simp: translate_field_def lower_mpn FIELDS_MANF_def)
qed

lemma check_fields_merge_rejects:
  assumes "c \<in> set (FIELDS_MANF distributors)"
    and "c \<in> set (map (translate_field distributors) fields_merge)"
  shows "\<exists>c'. c' \<in> set (FIELDS_MANF distributors)
            \<and> c' \<in> set (map (translate_field distributors) fields_merge)
            \<and> check_fields_merge distributors fields_merge = Inl (SystemExit (merge_rejected_msg c'))"
proof -
  let ?P = "\<lambda>c. List.member (map (translate_field distributors) fields_merge) c"
  from assms have "\<exists>x \<in> set (FIELDS_MANF distributors). ?P x"
    by auto
  then obtain c' where f: "find ?P (FIELDS_MANF distributors) = Some c'"
    by (cases "find ?P (FIELDS_MANF distributors)") (auto simp: find_None_iff)
  then have "c' \<in> set (FIELDS_MANF distributors)" "?P c'"
    by (auto simp: find_Some_iff intro: nth_mem)
  with f show ?thesis
    by (auto simp: check_fields_merge_def Let_def)
qed

text \<open>
  Claim C5.  If the merge-field list, normalized through the alias table, holds a field
  \<open>c\<close> of \<open>FIELDS_MANF\<close> (\<open>manf#\<close>, \<open>manf#_qty\<close>, \<open>manf\<close>, a distributor's code field or
  its \<open>_qty\<close> sibling), then \<open>group_parts\<close> exits with the message naming such a field;
  the result is the same for every set of components, every hash function and every
  \<open>SEPRTR\<close>, so nothing of the grouping takes part in it.  The alias \<open>mpn\<close> is
  normalized to a field of \<open>FIELDS_MANF\<close> whatever the distributors are.
\<close>

theorem group_parts_rejects_manf_fields:
  assumes "c \<in> set (FIELDS_MANF distributors)"
    and "c \<in> set (map (translate_field distributors) fields_merge)"
  shows "(\<exists>c'. c' \<in> set (FIELDS_MANF distributors)
            \<and> c' \<in> set (map (translate_field distributors) fields_merge)
            \<and> (\<forall>(hash :: pyfields \<Rightarrow> 'h) SEPRTR components.
                  group_parts hash distributors SEPRTR components fields_merge
                    = Inl (SystemExit (merge_rejected_msg c'))))
         \<and> translate_field distributors ''mpn'' \<in> set (FIELDS_MANF distributors)"
proof -
  from check_fields_merge_rejects[OF assms] obtain c' where
    c': "c' \<in> set (FIELDS_MANF distributors)"
        "c' \<in> set (map (translate_field distributors) fields_merge)"
        "check_fields_merge distributors fields_merge = Inl (SystemExit (merge_rejected_msg c'))"
    by blast
  have "\<forall>(hash :: pyfields \<Rightarrow> 'h) SEPRTR components.
          group_parts hash distributors SEPRTR components fields_merge
            = Inl (SystemExit (merge_rejected_msg c'))"
    by (simp add: group_parts_def c'(3))
  with c'(1,2) translate_mpn show ?thesis by blast
qed

theorem group_parts_rejects_manf_fields_witness:
  "''manf#'' \<in> set (FIELDS_MANF [''mouser'']) \<and>
   ''manf#'' \<in> set (map (translate_field [''mouser'']) [''MPN'']) \<and>
   (\<exists>c'. c' \<in> set (FIELDS_MANF [''mouser'']) \<and>
      group_parts (\<lambda>x. x) [''mouser''] '':'' [(''R1'', [(''value'', Some ''1k'')])] [''MPN'']
        = Inl (SystemExit (merge_rejected_msg c')))"
proof -
  have h1: "''manf#'' \<in> set (FIELDS_MANF [''mouser''])" by (simp add: FIELDS_MANF_def)
  have "translate_field [''mouser''] ''MPN'' = ''manf#''" by code_simp
  then have h2: "''manf#'' \<in> set (map (translate_field [''mouser'']) [''MPN''])" by simp
  from group_parts_rejects_manf_fields[OF h1 h2, where 'h = pyfields]
  have "\<exists>c'. c' \<in> set (FIELDS_MANF [''mouser'']) \<and>
      group_parts (\<lambda>x. x) [''mouser''] '':'' [(''R1'', [(''value'', Some ''1k'')])] [''MPN'']
        = Inl (SystemExit (merge_rejected_msg c'))" by blast
  with h1 h2 show ?thesis by blast
qed

subsection \<open>The groups partition the designators\<close>

text \<open>
  The invariant of the hash grouping: \<open>manf_nums\<close> of a provisional group holds no value
  twice, and holds exactly the \<open>manf#\<close> values of the group's members.
\<close>

definition groups_ok :: "pycomponents \<Rightarrow> ('h \<times> IdenticalComponents) list \<Rightarrow> bool" where
  "groups_ok components gs =
     list_all (\<lambda>(h, g). distinct (manf_nums g) \<and> set (manf_nums g) = get_manf components ` set (refs g)) gs"

lemma set_add_distinct: "distinct s \<Longrightarrow> distinct (set_add s x)"
  by (simp add: set_add_def)

lemma set_set_add: "set (set_add s x) = insert x (set s)"
  by (auto simp: set_add_def)

lemma add_to_groups_ok:
  "groups_ok cs gs \<Longrightarrow> get_manf cs ref = m \<Longrightarrow> groups_ok cs (add_to_groups gs h ref m)"
  by (induction gs) (auto simp: groups_ok_def set_add_distinct set_set_add)

lemma hash_groups_ok:
  "groups_ok cs gs \<Longrightarrow> list_all (\<lambda>(ref, fs). map_of cs ref = Some fs) items \<Longrightarrow>
   groups_ok cs (hash_groups hash distributors SEPRTR fm items gs)"
proof (induction items arbitrary: gs)
  case Nil
  then show ?case by simp
next
  case (Cons item items)
  obtain ref fs where item: "item = (ref, fs)" by (cases item)
  from Cons.prems(2) item have "get_manf cs ref = dict_get fs ''manf#''"
    by (simp add: get_manf_def component_fields_def)
  from add_to_groups_ok[OF Cons.prems(1) this]
  have "groups_ok cs (add_to_groups gs (component_hash hash distributors SEPRTR fm fs) ref
          (dict_get fs ''manf#''))" .
  from Cons.IH[OF this] Cons.prems(2) item show ?case by simp
qed

lemma distinct_items_lookup:
  "distinct (map fst cs) \<Longrightarrow> list_all (\<lambda>(ref, fs). map_of cs ref = Some fs) cs"
  unfolding list_all_iff by auto

lemma provisional_groups_ok:
  "distinct (map fst cs) \<Longrightarrow> groups_ok cs (hash_groups hash distributors SEPRTR fm cs [])"
  by (rule hash_groups_ok[OF _ distinct_items_lookup]) (simp_all add: groups_ok_def)

text \<open>
  Claim C3.  Let \<open>grp\<close> be a provisional group of the hash grouping of a set of
  components (a dictionary: distinct designators).  Its \<open>manf_nums\<close> holds, once each,
  exactly the \<open>manf#\<close> values of its members (\<open>None\<close> for a member without one).  If
  that set of values has size 1, or size 2 with \<open>None\<close> in it, the group is kept as it
  is; otherwise it is replaced by one sub-group per value, \<open>None\<close> included, whose
  references are exactly the members with that \<open>manf#\<close> value.  These groups are among
  the final groups of \<open>group_parts\<close>.
\<close>

theorem split_group_by_manf_nums:
  assumes d: "distinct (map fst components)"
    and g: "(h, grp) \<in> set (hash_groups hash distributors SEPRTR fm components [])"
  shows "distinct (manf_nums grp) \<and>
         set (manf_nums grp) = get_manf components ` set (refs grp) \<and>
         (if card (get_manf components ` set (refs grp)) = 1 \<or>
             (card (get_manf components ` set (refs grp)) = 2 \<and>
              None \<in> get_manf components ` set (refs grp))
          then split_group components grp = [grp]
          else split_group components grp =
                 map (\<lambda>manf_num.
                        \<lparr>refs = filter (\<lambda>ref. get_manf components ref = manf_num) (refs grp),
                         manf_nums = [manf_num], grp_fields = []\<rparr>) (manf_nums grp)) \<and>
         set (split_group components grp) \<subseteq> set (final_groups hash distributors SEPRTR components fm)"
proof -
  from provisional_groups_ok[OF d, of hash distributors SEPRTR fm] g
  have ok: "distinct (manf_nums grp)" "set (manf_nums grp) = get_manf components ` set (refs grp)"
    by (auto simp: groups_ok_def list_all_iff)
  then have card: "card (get_manf components ` set (refs grp)) = length (manf_nums grp)"
    by (metis distinct_card)
  have sub: "set (split_group components grp) \<subseteq> set (final_groups hash distributors SEPRTR components fm)"
    using g by (force simp: final_groups_def refine_groups_def)
  show ?thesis
    using ok sub unfolding card by (simp add: split_group_def ok(2)[symmetric])
qed


lemma add_to_groups_refs:
  "mset (concat (map (refs \<circ> snd) (add_to_groups gs h ref m)))
     = add_mset ref (mset (concat (map (refs \<circ> snd) gs)))"
  by (induction gs) auto

lemma hash_groups_refs:
  "mset (concat (map (refs \<circ> snd) (hash_groups hash distributors SEPRTR fm items gs)))
     = mset (concat (map (refs \<circ> snd) gs)) + mset (map fst items)"
  by (induction items arbitrary: gs) (auto simp: add_to_groups_refs)

lemma filter_by_key_partition:
  "distinct ms \<Longrightarrow>
   mset (concat (map (\<lambda>m. filter (\<lambda>r. f r = m) rs) ms)) = mset (filter (\<lambda>r. f r \<in> set ms) rs)"
proof (induction ms)
  case Nil
  then show ?case by simp
next
  case (Cons m ms)
  then have IH: "mset (concat (map (\<lambda>m. filter (\<lambda>r. f r = m) rs) ms))
                   = mset (filter (\<lambda>r. f r \<in> set ms) rs)"
    and notin: "m \<notin> set ms" by simp_all
  have "mset (filter (\<lambda>r. f r = m) rs) + mset (filter (\<lambda>r. f r \<in> set ms) rs)
          = mset (filter (\<lambda>r. f r = m \<or> f r \<in> set ms) rs)"
    using notin by (induction rs) auto
  with IH show ?case by simp
qed

lemma split_group_refs:
  assumes "distinct (manf_nums g)"
    and "set (manf_nums g) = get_manf cs ` set (refs g)"
  shows "mset (concat (map refs (split_group cs g))) = mset (refs g)"
proof -
  have "mset (concat (map (\<lambda>m. filter (\<lambda>r. get_manf cs r = m) (refs g)) (manf_nums g)))
          = mset (filter (\<lambda>r. get_manf cs r \<in> set (manf_nums g)) (refs g))"
    by (rule filter_by_key_partition[OF assms(1)])
  also have "\<dots> = mset (refs g)"
    using assms(2) by (simp add: filter_id_conv)
  finally show ?thesis
    by (simp add: split_group_def Let_def comp_def)
qed

lemma refine_groups_refs:
  "groups_ok cs gs \<Longrightarrow>
   mset (concat (map refs (refine_groups cs gs))) = mset (concat (map (refs \<circ> snd) gs))"
proof (induction gs)
  case Nil
  then show ?case by (simp add: refine_groups_def)
next
  case (Cons a gs)
  obtain h g where a: "a = (h, g)" by (cases a)
  from Cons.prems a have g: "distinct (manf_nums g)" "set (manf_nums g) = get_manf cs ` set (refs g)"
    and rest: "groups_ok cs gs" by (simp_all add: groups_ok_def)
  from Cons.IH[OF rest] split_group_refs[OF g] a show ?case
    by (simp add: refine_groups_def)
qed

lemma propagate_groups_refs:
  "propagate_groups cs gs = Inr gs' \<Longrightarrow> map refs gs' = map refs gs"
  by (induction gs arbitrary: gs') (auto split: sum.splits)

lemma group_parts_Inr:
  assumes "group_parts hash distributors SEPRTR components fields_merge = Inr groups"
  shows "\<exists>fm1 cs'. check_fields_merge distributors fields_merge = Inr fm1 \<and>
           merged_components distributors SEPRTR
             (final_groups hash distributors SEPRTR components fm1) components fm1 = Inr cs' \<and>
           propagate_groups cs' (final_groups hash distributors SEPRTR components fm1) = Inr groups"
  using assms by (auto simp: group_parts_def Let_def split: sum.splits)

text \<open>
  Claim C1.  For a set of components with distinct designators, the groups at the end
  of the hash grouping and its refinement by \<open>manf#\<close> (\<open>final_groups\<close>) hold every
  designator of the input exactly once, whatever the merge fields are.  The groups
  that \<open>group_parts\<close> returns are these groups with their fields filled in; a run that
  is stopped (rejected merge fields, a field value mismatch, an unreadable reference)
  returns none.  So whenever \<open>group_parts\<close> returns its groups, their reference lists
  together hold every designator of the input exactly once: the concatenation has no
  repetition, so a designator is in one group only and once there, and its elements
  are exactly the designators of the input.
\<close>

theorem group_parts_partition:
  assumes d: "distinct (map fst components)"
  shows "mset (concat (map refs (final_groups hash distributors SEPRTR components fm1)))
           = mset (map fst components)
         \<and> (\<forall>groups. group_parts hash distributors SEPRTR components fields_merge = Inr groups
               \<longrightarrow> mset (concat (map refs groups)) = mset (map fst components)
                 \<and> distinct (concat (map refs groups))
                 \<and> set (concat (map refs groups)) = fst ` set components)"
proof (intro conjI allI impI)
  have "mset (concat (map refs (final_groups hash distributors SEPRTR components fm1)))
          = mset (concat (map (refs \<circ> snd) (hash_groups hash distributors SEPRTR fm1 components [])))"
    unfolding final_groups_def by (rule refine_groups_refs[OF provisional_groups_ok[OF d]])
  also have "\<dots> = mset (map fst components)"
    by (simp add: hash_groups_refs)
  finally show "mset (concat (map refs (final_groups hash distributors SEPRTR components fm1)))
                  = mset (map fst components)" .
next
  fix groups
  assume r: "group_parts hash distributors SEPRTR components fields_merge = Inr groups"
  from group_parts_Inr[OF r] obtain fm cs' where
    p: "propagate_groups cs' (final_groups hash distributors SEPRTR components fm) = Inr groups"
    by blast
  have "mset (concat (map refs groups))
          = mset (concat (map refs (final_groups hash distributors SEPRTR components fm)))"
    using propagate_groups_refs[OF p] by simp
  also have "\<dots> = mset (concat (map (refs \<circ> snd) (hash_groups hash distributors SEPRTR fm components [])))"
    unfolding final_groups_def by (rule refine_groups_refs[OF provisional_groups_ok[OF d]])
  also have "\<dots> = mset (map fst components)"
    by (simp add: hash_groups_refs)
  finally show m: "mset (concat (map refs groups)) = mset (map fst components)" .
  from m d show "distinct (concat (map refs groups))"
    by (metis mset_eq_imp_distinct_iff)
  from m have "set (concat (map refs groups)) = set (map fst components)"
    by (rule mset_eq_setD)
  then show "set (concat (map refs groups)) = fst ` set components" by simp
qed

text \<open>
  Five parts: four resistors of the same value, two of them with the manufacturer
  number \<open>A\<close>, one with \<open>B\<close>, one without, and a capacitor.
\<close>

definition example_parts :: pycomponents where
  "example_parts =
     [(''R1'', [(''value'', Some ''1k''), (''manf#'', Some ''A'')]),
      (''R2'', [(''value'', Some ''1k''), (''manf#'', Some ''B'')]),
      (''R3'', [(''value'', Some ''1k'')]),
      (''R4'', [(''value'', Some ''1k''), (''manf#'', Some ''A'')]),
      (''C1'', [(''value'', Some ''1u'')])]"

definition example_groups :: "IdenticalComponents list" where
  "example_groups =
     [\<lparr>refs = [''R1'', ''R4''], manf_nums = [Some ''A''],
        grp_fields = [(''value'', Some ''1k''), (''manf#'', Some ''A'')]\<rparr>,
      \<lparr>refs = [''R2''], manf_nums = [Some ''B''],
        grp_fields = [(''value'', Some ''1k''), (''manf#'', Some ''B'')]\<rparr>,
      \<lparr>refs = [''R3''], manf_nums = [None], grp_fields = [(''value'', Some ''1k'')]\<rparr>,
      \<lparr>refs = [''C1''], manf_nums = [None], grp_fields = [(''value'', Some ''1u'')]\<rparr>]"

theorem group_parts_partition_witness:
  "distinct (map fst example_parts) \<and>
   group_parts (\<lambda>x. x) [''mouser''] '':'' example_parts [] = Inr example_groups \<and>
   mset (concat (map refs example_groups)) = mset (map fst example_parts) \<and>
   distinct (concat (map refs example_groups))"
proof -
  have d: "distinct (map fst example_parts)" by code_simp
  have r: "group_parts (\<lambda>x. x) [''mouser''] '':'' example_parts [] = Inr example_groups"
    by code_simp
  from group_parts_partition[OF d, of "\<lambda>x. x" "[''mouser'']" "'':''" "[]" "[]"] r
  have "mset (concat (map refs example_groups)) = mset (map fst example_parts)
        \<and> distinct (concat (map refs example_groups))" by blast
  with d r show ?thesis by blast
qed

definition example_provisional :: IdenticalComponents where
  "example_provisional =
     \<lparr>refs = [''R1'', ''R2'', ''R3'', ''R4''], manf_nums = [Some ''A'', Some ''B'', None],
      grp_fields = []\<rparr>"

theorem split_group_by_manf_nums_witness:
  "distinct (map fst example_parts) \<and>
   ([(''value'', Some ''1k'')], example_provisional)
      \<in> set (hash_groups (\<lambda>x. x) [''mouser''] '':'' [] example_parts []) \<and>
   split_group example_parts example_provisional =
     [\<lparr>refs = [''R1'', ''R4''], manf_nums = [Some ''A''], grp_fields = []\<rparr>,
      \<lparr>refs = [''R2''], manf_nums = [Some ''B''], grp_fields = []\<rparr>,
      \<lparr>refs = [''R3''], manf_nums = [None], grp_fields = []\<rparr>]"
proof -
  have d: "distinct (map fst example_parts)" by code_simp
  have hg: "hash_groups (\<lambda>x. x) [''mouser''] '':'' [] example_parts []
      = [([(''value'', Some ''1k'')], example_provisional),
         ([(''value'', Some ''1u'')], \<lparr>refs = [''C1''], manf_nums = [None], grp_fields = []\<rparr>)]"
    by code_simp
  have g: "([(''value'', Some ''1k'')], example_provisional)
      \<in> set (hash_groups (\<lambda>x. x) [''mouser''] '':'' [] example_parts [])"
    unfolding hg by simp
  have len: "length (manf_nums example_provisional) = 3" by (simp add: example_provisional_def)
  have m: "map (\<lambda>manf_num.
             \<lparr>refs = filter (\<lambda>ref. get_manf example_parts ref = manf_num) (refs example_provisional),
              manf_nums = [manf_num], grp_fields = []\<rparr>) (manf_nums example_provisional)
       = [\<lparr>refs = [''R1'', ''R4''], manf_nums = [Some ''A''], grp_fields = []\<rparr>,
          \<lparr>refs = [''R2''], manf_nums = [Some ''B''], grp_fields = []\<rparr>,
          \<lparr>refs = [''R3''], manf_nums = [None], grp_fields = []\<rparr>]"
    by code_simp
  note t = split_group_by_manf_nums[OF d g]
  from t have "card (get_manf example_parts ` set (refs example_provisional)) = 3"
    using len by (metis distinct_card)
  with t m have "split_group example_parts example_provisional =
     [\<lparr>refs = [''R1'', ''R4''], manf_nums = [Some ''A''], grp_fields = []\<rparr>,
      \<lparr>refs = [''R2''], manf_nums = [Some ''B''], grp_fields = []\<rparr>,
      \<lparr>refs = [''R3''], manf_nums = [None], grp_fields = []\<rparr>]"
    by simp
  with d g show ?thesis by blast
qed

subsection \<open>Field value mismatch\<close>



































section \<open>Sorting the groups\<close>

text \<open>
  \<open>ref_identifiers\<close> is \<open>re.split('(?<![\W\*\/])\s*,\s*|\s*,\s*(?![\W\*\/])', BOM_ORDER)\<close>.
  \<open>BOM_ORDER\<close> is a constant in which every comma stands between two letters, so the
  split is at every comma.
\<close>

definition BOM_ORDER :: string where
  "BOM_ORDER = ''u,q,d,t,y,x,c,r,s,j,p,cnn,con''"

definition ref_identifiers :: "string list" where
  "ref_identifiers =
     [''u'', ''q'', ''d'', ''t'', ''y'', ''x'', ''c'', ''r'', ''s'', ''j'', ''p'', ''cnn'', ''con'']"

lemma ref_identifiers_BOM_ORDER: "str_join '','' ref_identifiers = BOM_ORDER"
  by (simp add: ref_identifiers_def BOM_ORDER_def)

text \<open>
  \<open>for item in component_groups_ref_match: component_groups_order_old.remove(item)\<close>
  inside \<open>try\<close>/\<open>except ValueError: pass\<close>: the first item that is not in the list ends
  the loop.
\<close>

fun remove_items :: "nat list \<Rightarrow> nat list \<Rightarrow> nat list" where
  "remove_items [] order_old = order_old"
| "remove_items (item # items) order_old =
     (if List.member order_old item then remove_items items (remove1 item order_old)
      else order_old)"

text \<open>
  The order of several groups with the same reference identifier (lines 373 to 378):
  \<open>sorted\<close> is stable, \<open>False < True\<close>, and lists of strings compare
  lexicographically.
\<close>

definition sort_matches :: "IdenticalComponents list \<Rightarrow> nat list \<Rightarrow> nat list" where
  "sort_matches new_component_groups component_groups_ref_match =
     (let group_manf_list = map (\<lambda>h. dict_get (grp_fields (new_component_groups ! h)) ''manf#'')
                              component_groups_ref_match;
          group_refs_list = map (\<lambda>h. refs (new_component_groups ! h)) component_groups_ref_match;
          sorted_groups = sort_key (\<lambda>k. (group_manf_list ! k = None, group_refs_list ! k))
                            [0 ..< length group_refs_list]
      in map (\<lambda>i. component_groups_ref_match ! i) sorted_groups)"

text \<open>
  The indices whose reference is the identifier.  \<open>component_groups_refs[i].lower()\<close> is
  evaluated for every index, so a single \<open>None\<close> among the references raises
  \<open>AttributeError\<close>.
\<close>

definition ref_match :: "string option list \<Rightarrow> string \<Rightarrow> nat list" where
  "ref_match component_groups_refs ref_identifier =
     filter (\<lambda>i. Some ref_identifier = map_option str_lower (component_groups_refs ! i))
       [0 ..< length component_groups_refs]"

text \<open>
  The loop over \<open>ref_identifiers\<close>; the state is
  \<open>(component_groups_order_old, component_groups_order_new)\<close>.
\<close>

fun order_groups :: "IdenticalComponents list \<Rightarrow> string option list \<Rightarrow> string list
    \<Rightarrow> nat list \<times> nat list \<Rightarrow> py_error + (nat list \<times> nat list)" where
  "order_groups new_component_groups component_groups_refs [] st = Inr st"
| "order_groups new_component_groups component_groups_refs (ref_identifier # identifiers)
       (order_old, order_new) =
     (if list_ex (\<lambda>r. r = None) component_groups_refs then Inl AttributeError
      else
        (let component_groups_ref_match = ref_match component_groups_refs ref_identifier in
         if length component_groups_ref_match > 0 then
           (if length component_groups_ref_match > 1 then
              order_groups new_component_groups component_groups_refs identifiers
                (remove_items component_groups_ref_match order_old,
                 order_new @ sort_matches new_component_groups component_groups_ref_match)
            else
              order_groups new_component_groups component_groups_refs identifiers
                (remove_items [component_groups_ref_match ! 0] order_old,
                 order_new @ component_groups_ref_match))
         else order_groups new_component_groups component_groups_refs identifiers
                (order_old, order_new)))"

definition groups_sort :: "IdenticalComponents list \<Rightarrow> py_error + IdenticalComponents list" where
  "groups_sort new_component_groups =
     (let component_groups_order_old = [0 ..< length new_component_groups];
          component_groups_refs = map (\<lambda>g. dict_get (grp_fields g) ''reference'') new_component_groups
      in case order_groups new_component_groups component_groups_refs ref_identifiers
                (component_groups_order_old, []) of
           Inl e \<Rightarrow> Inl e
         | Inr (order_old, order_new) \<Rightarrow>
             Inr (map (\<lambda>i. new_component_groups ! i) (order_new @ order_old)))"

subsection \<open>The sorted groups are a permutation\<close>

lemma remove_items_mset:
  "mset items \<subseteq># mset order_old \<Longrightarrow>
   mset (remove_items items order_old) = mset order_old - mset items"
proof (induction items arbitrary: order_old)
  case Nil
  then show ?case by simp
next
  case (Cons item items)
  from Cons.prems have mem: "item \<in> set order_old"
    by (metis insert_subset_eq_iff mset.simps(2) set_mset_mset)
  from Cons.prems have "mset items \<subseteq># mset (remove1 item order_old)"
    by (simp add: insert_subset_eq_iff)
  from Cons.IH[OF this] mem show ?case by simp
qed

lemma sort_matches_mset: "mset (sort_matches gs match) = mset match"
proof -
  have "mset (map (\<lambda>i. match ! i) (sort_key f [0 ..< length match])) = mset match" for f :: "nat \<Rightarrow> bool \<times> string list"
  proof -
    have "mset (map (\<lambda>i. match ! i) (sort_key f [0 ..< length match]))
            = image_mset (\<lambda>i. match ! i) (mset (sort_key f [0 ..< length match]))" by simp
    also have "\<dots> = image_mset (\<lambda>i. match ! i) (mset [0 ..< length match])" by simp
    also have "\<dots> = mset (map (\<lambda>i. match ! i) [0 ..< length match])" by simp
    also have "\<dots> = mset match" by (simp add: map_nth)
    finally show ?thesis .
  qed
  then show ?thesis by (simp add: sort_matches_def Let_def)
qed

lemma subset_diff_disjoint:
  fixes A B C :: "'a multiset"
  assumes "A \<subseteq># C" and "set_mset A \<inter> set_mset B = {}"
  shows "A \<subseteq># C - B"
proof (rule mset_subset_eqI)
  fix x
  show "count A x \<le> count (C - B) x"
  proof (cases "x \<in># A")
    case True
    with assms(2) have "x \<notin># B" by auto
    then have "count B x = 0" by (simp add: count_eq_zero_iff)
    with assms(1) show ?thesis by (simp add: mset_subset_eq_count)
  next
    case False
    then show ?thesis by (simp add: not_in_iff)
  qed
qed

lemma ref_match_disjoint:
  "a \<noteq> b \<Longrightarrow> set (ref_match crefs a) \<inter> set (ref_match crefs b) = {}"
  by (auto simp: ref_match_def) (metis option.inject)

lemma ref_match_subset: "mset (ref_match crefs a) \<subseteq># mset [0 ..< length crefs]"
  unfolding ref_match_def by (metis mset_filter multiset_filter_subset)

lemma order_groups_perm:
  assumes "\<not> list_ex (\<lambda>r. r = None) crefs"
    and "distinct ids"
    and "\<forall>a \<in> set ids. mset (ref_match crefs a) \<subseteq># mset order_old"
  shows "\<exists>old' new'. order_groups gs crefs ids (order_old, order_new) = Inr (old', new')
           \<and> mset (new' @ old') = mset (order_new @ order_old)"
  using assms(2,3)
proof (induction ids arbitrary: order_old order_new)
  case Nil
  then show ?case by simp
next
  case (Cons a ids)
  let ?m = "ref_match crefs a"
  from Cons.prems have d: "distinct ids" and a: "a \<notin> set ids"
    and sub: "mset ?m \<subseteq># mset order_old" by simp_all
  have rest: "\<forall>b \<in> set ids. mset (ref_match crefs b) \<subseteq># mset order_old - mset ?m"
  proof
    fix b assume b: "b \<in> set ids"
    with a have "b \<noteq> a" by auto
    from ref_match_disjoint[OF this, of crefs]
    have "set_mset (mset (ref_match crefs b)) \<inter> set_mset (mset ?m) = {}" by simp
    moreover from b Cons.prems(2) have "mset (ref_match crefs b) \<subseteq># mset order_old" by simp
    ultimately show "mset (ref_match crefs b) \<subseteq># mset order_old - mset ?m"
      by (rule subset_diff_disjoint[rotated])
  qed
  have rm: "mset (remove_items ?m order_old) = mset order_old - mset ?m"
    by (rule remove_items_mset[OF sub])
  show ?case
  proof (cases "length ?m = 0")
    case True
    then have "?m = []" by simp
    with rest have "\<forall>b \<in> set ids. mset (ref_match crefs b) \<subseteq># mset order_old" by simp
    from Cons.IH[OF d this, of order_new] True assms(1) show ?thesis by simp
  next
    case False
    from rest rm have inv: "\<forall>b \<in> set ids. mset (ref_match crefs b) \<subseteq># mset (remove_items ?m order_old)"
      by simp
    show ?thesis
    proof (cases "length ?m > 1")
      case True
      from Cons.IH[OF d inv, of "order_new @ sort_matches gs ?m"] obtain old' new' where
        r: "order_groups gs crefs ids (remove_items ?m order_old, order_new @ sort_matches gs ?m)
              = Inr (old', new')"
        and m: "mset (new' @ old') = mset ((order_new @ sort_matches gs ?m) @ remove_items ?m order_old)"
        by blast
      from m rm sub have "mset (new' @ old') = mset (order_new @ order_old)"
        by (simp add: sort_matches_mset)
      with r True False assms(1) show ?thesis by (simp add: Let_def)
    next
      case one: False
      with False have "length ?m = 1" by (cases ?m) auto
      then obtain x where x: "?m = [x]" by (cases ?m) auto
      then have single: "[?m ! 0] = ?m" by simp
      from Cons.IH[OF d inv, of "order_new @ ?m"] obtain old' new' where
        r: "order_groups gs crefs ids (remove_items ?m order_old, order_new @ ?m) = Inr (old', new')"
        and m: "mset (new' @ old') = mset ((order_new @ ?m) @ remove_items ?m order_old)"
        by blast
      from m rm sub have "mset (new' @ old') = mset (order_new @ order_old)" by simp
      with r one False assms(1) single show ?thesis by (simp add: Let_def)
    qed
  qed
qed

lemma distinct_ref_identifiers: "distinct ref_identifiers"
  by (simp add: ref_identifiers_def)

text \<open>
  Claim C9.  When every group's fields hold a \<open>reference\<close> that is not \<open>None\<close>,
  \<open>groups_sort\<close> returns, and what it returns is a permutation of its input: the same
  groups with the same multiplicities, hence the same number of them; none is dropped,
  duplicated or changed.
\<close>

theorem groups_sort_permutation:
  assumes "\<forall>g \<in> set new_component_groups. dict_get (grp_fields g) ''reference'' \<noteq> None"
  shows "\<exists>sorted. groups_sort new_component_groups = Inr sorted
           \<and> mset sorted = mset new_component_groups
           \<and> length sorted = length new_component_groups"
proof -
  let ?gs = new_component_groups
  let ?crefs = "map (\<lambda>g. dict_get (grp_fields g) ''reference'') ?gs"
  from assms have nn: "\<not> list_ex (\<lambda>r. r = None) ?crefs"
    by (auto simp: list_ex_iff)
  have "\<forall>a \<in> set ref_identifiers. mset (ref_match ?crefs a) \<subseteq># mset [0 ..< length ?gs]"
    using ref_match_subset[of ?crefs] by simp
  from order_groups_perm[OF nn distinct_ref_identifiers this, of ?gs "[]"]
  obtain old' new' where
    r: "order_groups ?gs ?crefs ref_identifiers ([0 ..< length ?gs], []) = Inr (old', new')"
    and m: "mset (new' @ old') = mset [0 ..< length ?gs]" by auto
  have "mset (map (\<lambda>i. ?gs ! i) (new' @ old')) = image_mset (\<lambda>i. ?gs ! i) (mset (new' @ old'))"
    by simp
  also have "\<dots> = mset (map (\<lambda>i. ?gs ! i) [0 ..< length ?gs])" unfolding m by simp
  also have "\<dots> = mset ?gs" by (simp add: map_nth)
  finally have p: "mset (map (\<lambda>i. ?gs ! i) (new' @ old')) = mset ?gs" .
  then have "length (map (\<lambda>i. ?gs ! i) (new' @ old')) = length ?gs"
    by (rule mset_eq_length)
  with r p show ?thesis by (simp add: groups_sort_def Let_def)
qed

text \<open>
  Five groups: three with the reference prefix \<open>R\<close> (one in lower case, one without
  \<open>manf#\<close>), one with \<open>U\<close>, and one with \<open>Z\<close>, which \<open>BOM_ORDER\<close> does not list.
\<close>

definition sample_groups :: "IdenticalComponents list" where
  "sample_groups =
     [\<lparr>refs = [''Z1''], manf_nums = [None], grp_fields = [(''reference'', Some ''Z'')]\<rparr>,
      \<lparr>refs = [''R3''], manf_nums = [None], grp_fields = [(''reference'', Some ''R'')]\<rparr>,
      \<lparr>refs = [''R1'', ''R4''], manf_nums = [Some ''A''],
        grp_fields = [(''reference'', Some ''R''), (''manf#'', Some ''A'')]\<rparr>,
      \<lparr>refs = [''U1''], manf_nums = [None], grp_fields = [(''reference'', Some ''U'')]\<rparr>,
      \<lparr>refs = [''R2''], manf_nums = [Some ''B''],
        grp_fields = [(''reference'', Some ''r''), (''manf#'', Some ''B'')]\<rparr>]"

definition sample_sorted :: "IdenticalComponents list" where
  "sample_sorted =
     [\<lparr>refs = [''U1''], manf_nums = [None], grp_fields = [(''reference'', Some ''U'')]\<rparr>,
      \<lparr>refs = [''R1'', ''R4''], manf_nums = [Some ''A''],
        grp_fields = [(''reference'', Some ''R''), (''manf#'', Some ''A'')]\<rparr>,
      \<lparr>refs = [''R2''], manf_nums = [Some ''B''],
        grp_fields = [(''reference'', Some ''r''), (''manf#'', Some ''B'')]\<rparr>,
      \<lparr>refs = [''R3''], manf_nums = [None], grp_fields = [(''reference'', Some ''R'')]\<rparr>,
      \<lparr>refs = [''Z1''], manf_nums = [None], grp_fields = [(''reference'', Some ''Z'')]\<rparr>]"

theorem groups_sort_permutation_witness:
  "list_all (\<lambda>g. dict_get (grp_fields g) ''reference'' \<noteq> None) sample_groups \<and>
   groups_sort sample_groups = Inr sample_sorted \<and>
   mset sample_sorted = mset sample_groups \<and>
   length sample_sorted = length sample_groups"
proof -
  have h: "list_all (\<lambda>g. dict_get (grp_fields g) ''reference'' \<noteq> None) sample_groups"
    by code_simp
  then have h': "\<forall>g \<in> set sample_groups. dict_get (grp_fields g) ''reference'' \<noteq> None"
    unfolding list_all_iff .
  have r: "groups_sort sample_groups = Inr sample_sorted" by code_simp
  from groups_sort_permutation[OF h'] r have "mset sample_sorted = mset sample_groups
      \<and> length sample_sorted = length sample_groups" by auto
  with h r show ?thesis by blast
qed

end
